theory Spec2Isabelle
  imports Complex_Main "HOL-Library.Char_ord" "HOL-Library.List_Lexorder" "HOL-Library.AList"
begin

section \<open>Event-window performance simulation (backend/main.py)\<close>

text \<open>
  The embedding follows \<^verbatim>\<open>src/backend/main.py\<close>: the scenario valuator
  \<^verbatim>\<open>calculate_scenario_performance\<close>, the metrics calculator
  \<^verbatim>\<open>calculate_performance_metrics\<close>, the ranking of
  \<^verbatim>\<open>generate_investment_advice\<close> and the part of
  \<^verbatim>\<open>simulate_portfolio_event\<close> that starts once the price series are fetched.

  Conventions of the model:
  \<^item> Python's \<^verbatim>\<open>float\<close> values (prices, allocations, portfolio values, returns) are
    exact rationals (\<^typ>\<open>rat\<close>): \<^verbatim>\<open>0.8\<close> is \<open>8/10\<close>, \<^verbatim>\<open>1.2\<close> is \<open>12/10\<close>;
    rounding, infinities and NaN of IEEE doubles are outside the model. Division is the
    exception: Python raises \<^verbatim>\<open>ZeroDivisionError\<close> on a zero divisor, and so does the model.
  \<^item> A date is the string the program stores (\<^verbatim>\<open>strftime("%Y-%m-%d")\<close>); strings are
    compared as Python compares them, lexicographically by character code.
  \<^item> Every \<^verbatim>\<open>raise\<close> is a value \<open>Inl e\<close> of the result type.
\<close>

subsection \<open>Errors\<close>

datatype py_error =
    HTTPException nat string
  | ZeroDivisionError
  | ValueError

text \<open>Sequencing of fallible steps: the first error ends the computation.\<close>

definition bind_err :: "py_error + 'a \<Rightarrow> ('a \<Rightarrow> py_error + 'b) \<Rightarrow> py_error + 'b" where
  "bind_err r f = (case r of Inl e \<Rightarrow> Inl e | Inr x \<Rightarrow> f x)"

text \<open>Python's true division on numbers.\<close>

definition py_truediv :: "rat \<Rightarrow> rat \<Rightarrow> py_error + rat" where
  "py_truediv a b = (if b = 0 then Inl ZeroDivisionError else Inr (a / b))"

subsection \<open>The standard library's dates\<close>

text \<open>
  \<^verbatim>\<open>datetime.datetime.strptime(s, "%Y-%m-%d")\<close> and the \<^verbatim>\<open>.days\<close> of a difference of
  two such values, after CPython's \<^verbatim>\<open>_strptime.py\<close> and \<^verbatim>\<open>datetime.py\<close>: the year is four
  digits, the month matches \<^verbatim>\<open>1[0-2]|0[1-9]|[1-9]\<close>, the day matches
  \<^verbatim>\<open>3[0-1]|[1-2]\d|0[1-9]|[1-9]| [1-9]\<close>, nothing may follow the day, and the triple must
  be a date of the proleptic Gregorian calendar with a year of at least 1; everything
  else raises \<^verbatim>\<open>ValueError\<close>. Date strings are ASCII.
\<close>

definition is_digit :: "char \<Rightarrow> bool" where
  "is_digit c = (c \<in> set ''0123456789'')"

definition is_digit19 :: "char \<Rightarrow> bool" where
  "is_digit19 c = (c \<in> set ''123456789'')"

definition digit_val :: "char \<Rightarrow> int" where
  "digit_val c = of_char c - 48"

fun parse_year :: "string \<Rightarrow> (int \<times> string) option" where
  "parse_year (a # b # c # d # rest) =
     (if is_digit a \<and> is_digit b \<and> is_digit c \<and> is_digit d
      then Some (1000 * digit_val a + 100 * digit_val b + 10 * digit_val c + digit_val d, rest)
      else None)"
| "parse_year _ = None"

fun parse_month :: "string \<Rightarrow> (int \<times> string) option" where
  "parse_month (a # b # rest) =
     (if a = CHR ''1'' \<and> b \<in> set ''012'' then Some (10 + digit_val b, rest)
      else if a = CHR ''0'' \<and> is_digit19 b then Some (digit_val b, rest)
      else if is_digit19 a then Some (digit_val a, b # rest)
      else None)"
| "parse_month [a] = (if is_digit19 a then Some (digit_val a, []) else None)"
| "parse_month [] = None"

fun parse_day :: "string \<Rightarrow> (int \<times> string) option" where
  "parse_day (a # b # rest) =
     (if a = CHR ''3'' \<and> b \<in> set ''01'' then Some (30 + digit_val b, rest)
      else if a \<in> set ''12'' \<and> is_digit b then Some (10 * digit_val a + digit_val b, rest)
      else if a = CHR ''0'' \<and> is_digit19 b then Some (digit_val b, rest)
      else if is_digit19 a then Some (digit_val a, b # rest)
      else if a = CHR '' '' \<and> is_digit19 b then Some (digit_val b, rest)
      else None)"
| "parse_day [a] = (if is_digit19 a then Some (digit_val a, []) else None)"
| "parse_day [] = None"

fun expect_dash :: "string \<Rightarrow> string option" where
  "expect_dash (c # rest) = (if c = CHR ''-'' then Some rest else None)"
| "expect_dash [] = None"

definition is_leap :: "int \<Rightarrow> bool" where
  "is_leap y = (y mod 4 = 0 \<and> (y mod 100 \<noteq> 0 \<or> y mod 400 = 0))"

definition days_in_month :: "int \<Rightarrow> int \<Rightarrow> int" where
  "days_in_month y m =
     (if m = 2 then (if is_leap y then 29 else 28)
      else if m \<in> {4, 6, 9, 11} then 30 else 31)"

definition days_before_year :: "int \<Rightarrow> int" where
  "days_before_year year =
     (let y = year - 1 in y * 365 + y div 4 - y div 100 + y div 400)"

definition days_before_month :: "int \<Rightarrow> int \<Rightarrow> int" where
  "days_before_month y m =
     [0, 0, 31, 59, 90, 120, 151, 181, 212, 243, 273, 304, 334] ! nat m
       + (if 2 < m \<and> is_leap y then 1 else 0)"

text \<open>A parsed date is the triple (year, month, day); \<open>toordinal\<close> is its day number.\<close>

type_synonym ymd = "int \<times> int \<times> int"

definition toordinal :: "ymd \<Rightarrow> int" where
  "toordinal t =
     days_before_year (fst t) + days_before_month (fst t) (fst (snd t)) + snd (snd t)"

definition strptime :: "string \<Rightarrow> py_error + ymd" where
  "strptime s =
     (case parse_year s of
        None \<Rightarrow> Inl ValueError
      | Some (y, s1) \<Rightarrow>
         (case expect_dash s1 of
            None \<Rightarrow> Inl ValueError
          | Some s2 \<Rightarrow>
             (case parse_month s2 of
                None \<Rightarrow> Inl ValueError
              | Some (m, s3) \<Rightarrow>
                 (case expect_dash s3 of
                    None \<Rightarrow> Inl ValueError
                  | Some s4 \<Rightarrow>
                     (case parse_day s4 of
                        None \<Rightarrow> Inl ValueError
                      | Some (d, s5) \<Rightarrow>
                          if s5 \<noteq> [] then Inl ValueError
                          else if y < 1 \<or> days_in_month y m < d then Inl ValueError
                          else Inr (y, m, d))))))"

text \<open>\<^verbatim>\<open>(a - b).days\<close> for two values returned by \<open>strptime\<close> (both at midnight).\<close>

definition timedelta_days :: "ymd \<Rightarrow> ymd \<Rightarrow> int" where
  "timedelta_days a b = toordinal a - toordinal b"

subsection \<open>Data\<close>

text \<open>
  One entry of an asset's series, \<^verbatim>\<open>{"date": ..., "close": ..., "allocation": ...}\<close>, and
  one entry of a value series, \<^verbatim>\<open>{"date": ..., "value": ...}\<close>. \<^verbatim>\<open>event_data\<close> is a
  dictionary from symbol to series; iteration follows insertion order, so it is an
  association list.
\<close>

record data_point =
  dp_date :: string
  close :: rat
  allocation :: rat

record perf_point =
  date :: string
  val :: rat

type_synonym event_data = "(string \<times> data_point list) list"

record portfolio =
  pid :: string
  pname :: string
  investment_amount :: "rat option"

record metrics =
  total_return :: rat
  max_drawdown :: rat
  recovery_days :: "int option"

subsection \<open>Metrics calculator\<close>

text \<open>
  The drawdown loop of \<^verbatim>\<open>calculate_performance_metrics\<close>: the state is
  (\<^verbatim>\<open>peak_value\<close>, \<^verbatim>\<open>max_drawdown\<close>); the division by the peak raises when the peak is 0.
\<close>

fun drawdown_loop :: "perf_point list \<Rightarrow> rat \<Rightarrow> rat \<Rightarrow> py_error + rat" where
  "drawdown_loop [] peak_value mdd = Inr mdd"
| "drawdown_loop (point # rest) peak_value mdd =
     (let peak_value = (if val point > peak_value then val point else peak_value) in
      bind_err (py_truediv (peak_value - val point) peak_value) (\<lambda>q.
        drawdown_loop rest peak_value (max mdd (q * 100))))"

text \<open>
  \<^verbatim>\<open>min(range(len(performance_data)), key=...)\<close>: Python's \<^verbatim>\<open>min\<close> keeps the first
  item and replaces it only by an item whose key is strictly smaller.
\<close>

fun min_loop :: "(nat \<Rightarrow> rat) \<Rightarrow> nat list \<Rightarrow> nat \<Rightarrow> nat" where
  "min_loop key [] best = best"
| "min_loop key (i # rest) best = min_loop key rest (if key i < key best then i else best)"

definition lowest_point_idx :: "perf_point list \<Rightarrow> nat" where
  "lowest_point_idx performance_data =
     min_loop (\<lambda>i. val (performance_data ! i)) [1 ..< length performance_data] 0"

text \<open>
  The recovery scan \<^verbatim>\<open>for i in range(lowest_point_idx + 1, len(performance_data))\<close>
  with its \<^verbatim>\<open>break\<close> at the first entry at or above the initial value.
\<close>

fun recovery_loop :: "perf_point list \<Rightarrow> rat \<Rightarrow> ymd \<Rightarrow> nat list \<Rightarrow> py_error + int option" where
  "recovery_loop performance_data initial_value lowest_date [] = Inr None"
| "recovery_loop performance_data initial_value lowest_date (i # rest) =
     (if val (performance_data ! i) \<ge> initial_value
      then bind_err (strptime (date (performance_data ! i))) (\<lambda>recovery_date.
             Inr (Some (timedelta_days recovery_date lowest_date)))
      else recovery_loop performance_data initial_value lowest_date rest)"

definition calculate_performance_metrics :: "perf_point list \<Rightarrow> py_error + metrics" where
  "calculate_performance_metrics performance_data =
     (if length performance_data < 2
      then Inr \<lparr>total_return = 0, max_drawdown = 0, recovery_days = None\<rparr>
      else
        let initial_value = val (hd performance_data);
            final_value = val (last performance_data)
        in
        bind_err (py_truediv (final_value - initial_value) initial_value) (\<lambda>q.
        let total_return = q * 100 in
        bind_err (drawdown_loop performance_data initial_value 0) (\<lambda>max_drawdown.
        let lowest_point_idx = lowest_point_idx performance_data in
        bind_err
          (if lowest_point_idx < length performance_data - 1
           then bind_err (strptime (date (performance_data ! lowest_point_idx))) (\<lambda>lowest_date.
                  recovery_loop performance_data initial_value lowest_date
                    [lowest_point_idx + 1 ..< length performance_data])
           else Inr None) (\<lambda>recovery_days.
        Inr \<lparr>total_return = total_return, max_drawdown = max_drawdown,
             recovery_days = recovery_days\<rparr>))))"

subsection \<open>Scenario valuator\<close>

text \<open>
  \<^verbatim>\<open>middle_date and date >= middle_date\<close>: the pivot counts only when it is neither
  \<^verbatim>\<open>None\<close> nor the empty string (Python's truth value of a string).
\<close>

definition pivot_reached :: "string option \<Rightarrow> string \<Rightarrow> bool" where
  "pivot_reached middle_date d =
     (case middle_date of None \<Rightarrow> False | Some md \<Rightarrow> md \<noteq> [] \<and> d \<ge> md)"

definition adjustment_factor :: "string \<Rightarrow> string option \<Rightarrow> string \<Rightarrow> rat" where
  "adjustment_factor scenario middle_date d =
     (if scenario = ''withdraw'' \<and> pivot_reached middle_date d then 8 / 10
      else if scenario = ''add'' \<and> pivot_reached middle_date d then 12 / 10
      else 1)"

text \<open>
  The inner loop over \<^verbatim>\<open>event_data.items()\<close>: the first entry of the asset's series
  with the date, if any, adds \<^verbatim>\<open>close * (allocation / 100)\<close>.
\<close>

fun weighted_sum :: "event_data \<Rightarrow> string \<Rightarrow> rat \<Rightarrow> rat" where
  "weighted_sum [] d portfolio_value = portfolio_value"
| "weighted_sum ((symbol, asset_data) # rest) d portfolio_value =
     weighted_sum rest d
       (case find (\<lambda>p. dp_date p = d) asset_data of
          None \<Rightarrow> portfolio_value
        | Some data_point \<Rightarrow> portfolio_value + close data_point * (allocation data_point / 100))"

definition scenario_value ::
  "event_data \<Rightarrow> string \<Rightarrow> string option \<Rightarrow> portfolio option \<Rightarrow> string \<Rightarrow> rat" where
  "scenario_value event_data scenario middle_date pf d =
     (let portfolio_value = weighted_sum event_data d 0 * adjustment_factor scenario middle_date d
      in case pf of
           None \<Rightarrow> portfolio_value
         | Some p \<Rightarrow>
            (case investment_amount p of
               None \<Rightarrow> portfolio_value
             | Some amount \<Rightarrow>
                 if portfolio_value > 0 then portfolio_value * amount else portfolio_value))"

definition calculate_scenario_performance ::
  "event_data \<Rightarrow> string list \<Rightarrow> string \<Rightarrow> string option \<Rightarrow> portfolio option \<Rightarrow> perf_point list" where
  "calculate_scenario_performance event_data dates scenario middle_date pf =
     map (\<lambda>d. \<lparr>date = d, val = scenario_value event_data scenario middle_date pf d\<rparr>) dates"

subsection \<open>Ranking and orchestration\<close>

text \<open>
  One entry of \<^verbatim>\<open>simulation_results\<close> carries the three metrics, the scenario's name
  and its value series.
\<close>

record scenario_result = metrics +
  scenario :: string
  performance :: "perf_point list"

record advice =
  best_scenario :: string
  advice_text :: string

text \<open>
  \<^verbatim>\<open>max(scenarios.items(), key=...)\<close>: Python's \<^verbatim>\<open>max\<close> keeps the first item and
  replaces it only by an item whose key is strictly greater.
\<close>

fun max_loop :: "('a \<Rightarrow> rat) \<Rightarrow> 'a list \<Rightarrow> 'a \<Rightarrow> 'a" where
  "max_loop key [] best = best"
| "max_loop key (x # rest) best = max_loop key rest (if key x > key best then x else best)"

definition fallback_advice :: advice where
  "fallback_advice =
     \<lparr>best_scenario = ''No Changes'',
      advice_text = ''Unable to generate investment advice. Please analyze the simulation data to determine the best strategy.''\<rparr>"

text \<open>
  \<^verbatim>\<open>generate_investment_advice\<close>. The dictionary \<^verbatim>\<open>scenarios\<close> is built in the order of
  the results (a repeated name keeps its place and takes the later metrics). The
  completion request is the one external call: \<open>reply\<close> is the stripped content of its
  answer, or \<open>None\<close> when the request or the reading of the answer raises. Every
  exception inside the \<^verbatim>\<open>try\<close> (\<^verbatim>\<open>max\<close> of an empty dictionary, a missing scenario
  name in the prompt, the failed request) ends in the \<^verbatim>\<open>except\<close> branch and its fixed
  answer.
\<close>

definition generate_investment_advice :: "scenario_result list \<Rightarrow> string option \<Rightarrow> advice" where
  "generate_investment_advice simulation_results reply =
     (let scenarios = foldl (\<lambda>d r. AList.update (scenario r) (total_return r) d) [] simulation_results
      in if scenarios = [] then fallback_advice
         else
           let best_scenario = fst (max_loop snd (tl scenarios) (hd scenarios)) in
           if ''No Changes'' \<in> fst ` set scenarios \<and> ''20% Withdrawal'' \<in> fst ` set scenarios
                \<and> ''20% Addition'' \<in> fst ` set scenarios
           then (case reply of
                   None \<Rightarrow> fallback_advice
                 | Some txt \<Rightarrow> \<lparr>best_scenario = best_scenario, advice_text = txt\<rparr>)
           else fallback_advice)"

text \<open>
  The date axis of \<^verbatim>\<open>simulate_portfolio_event\<close>: every date of every series goes
  into a set, and the set is sorted.
\<close>

definition axis_dates :: "event_data \<Rightarrow> string list" where
  "axis_dates event_data =
     sort (remdups (concat (map (\<lambda>(symbol, asset_data). map dp_date asset_data) event_data)))"

record simulation =
  middle_date :: string
  simulation_results :: "scenario_result list"
  advice :: advice

definition make_result :: "string \<Rightarrow> perf_point list \<Rightarrow> metrics \<Rightarrow> scenario_result" where
  "make_result name perf m =
     \<lparr>total_return = total_return m, max_drawdown = max_drawdown m,
      recovery_days = recovery_days m, scenario = name, performance = perf\<rparr>"

text \<open>
  \<^verbatim>\<open>simulate_portfolio_event\<close> from the point where the portfolio is found, the event
  period is known and \<^verbatim>\<open>event_data\<close> holds the fetched series (these steps only call
  external services). The response fields that copy the request (event, portfolio id
  and name, start and end date, the per-asset series) are not part of the model.
\<close>

definition simulate_portfolio_event ::
  "portfolio \<Rightarrow> event_data \<Rightarrow> string option \<Rightarrow> py_error + simulation" where
  "simulate_portfolio_event pf event_data reply =
     (let dates = axis_dates event_data in
      if length dates = 0
      then Inl (HTTPException 400 ''Insufficient market data for simulation'')
      else
        let middle_idx = length dates div 2;
            middle_date = dates ! middle_idx;
            no_change_performance =
              calculate_scenario_performance event_data dates ''no_change'' None (Some pf)
        in
        bind_err (calculate_performance_metrics no_change_performance) (\<lambda>no_change_metrics.
        let withdraw_performance =
              calculate_scenario_performance event_data dates ''withdraw'' (Some middle_date) (Some pf)
        in
        bind_err (calculate_performance_metrics withdraw_performance) (\<lambda>withdraw_metrics.
        let add_performance =
              calculate_scenario_performance event_data dates ''add'' (Some middle_date) (Some pf)
        in
        bind_err (calculate_performance_metrics add_performance) (\<lambda>add_metrics.
        let simulation_results =
              [make_result ''No Changes'' no_change_performance no_change_metrics,
               make_result ''20% Withdrawal'' withdraw_performance withdraw_metrics,
               make_result ''20% Addition'' add_performance add_metrics]
        in
        Inr \<lparr>middle_date = middle_date, simulation_results = simulation_results,
             advice = generate_investment_advice simulation_results reply\<rparr>))))"

subsection \<open>The specification's notions\<close>

text \<open>
  The definitions of this subsection follow the words of the specification, not the
  code; the theorems below compare the code with them.

  The calendar day number of a date string (the string is a date: it parses).
\<close>

definition parses :: "string \<Rightarrow> bool" where
  "parses s = (case strptime s of Inl e \<Rightarrow> False | Inr t \<Rightarrow> True)"

definition calendar_days :: "string \<Rightarrow> int" where
  "calendar_days s = (case strptime s of Inl e \<Rightarrow> 0 | Inr t \<Rightarrow> toordinal t)"

text \<open>
  ``The index of the global minimum value (first occurrence on ties)'': the number of
  entries before the first one that holds the least value of the series.
\<close>

definition spec_trough_index :: "perf_point list \<Rightarrow> nat" where
  "spec_trough_index series =
     length (takeWhile (\<lambda>p. val p \<noteq> Min (set (map val series))) series)"

text \<open>
  ``If that index is the last index, recovery_days is absent. Otherwise scan forward
  from the index after the minimum; the first date whose value is at least the first
  value marks recovery; recovery_days = (that date - trough date) in calendar days. If
  no such date exists, recovery_days is absent.''
\<close>

definition spec_recovery_days :: "perf_point list \<Rightarrow> int option" where
  "spec_recovery_days series =
     (let t = spec_trough_index series in
      if t = length series - 1 then None
      else case find (\<lambda>p. val (hd series) \<le> val p) (drop (Suc t) series) of
             None \<Rightarrow> None
           | Some r \<Rightarrow> Some (calendar_days (date r) - calendar_days (date (series ! t))))"

text \<open>``The series is non-decreasing.''\<close>

definition non_decreasing :: "perf_point list \<Rightarrow> bool" where
  "non_decreasing series = sorted (map val series)"

text \<open>``Strictly increasing valid calendar dates.''\<close>

definition chronological :: "perf_point list \<Rightarrow> bool" where
  "chronological series =
     (list_all (\<lambda>p. parses (date p)) series \<and> sorted_wrt (<) (map (\<lambda>p. calendar_days (date p)) series))"

subsection \<open>Sample inputs\<close>

text \<open>
  Inputs on which the theorems are instantiated: a portfolio of one asset at 50 percent
  over two trading days, and the value series of the specification's worked scenario
  (100, 80, 60, 90, 110 on five consecutive days).
\<close>

definition demo_portfolio :: portfolio where
  "demo_portfolio = \<lparr>pid = ''p1'', pname = ''demo'', investment_amount = None\<rparr>"

definition two_day_data :: event_data where
  "two_day_data =
     [(''SPY'', [\<lparr>dp_date = ''2020-03-02'', close = 100, allocation = 50\<rparr>,
                 \<lparr>dp_date = ''2020-03-03'', close = 110, allocation = 50\<rparr>])]"

definition five_day_series :: "perf_point list" where
  "five_day_series =
     [\<lparr>date = ''2020-01-01'', val = 100\<rparr>, \<lparr>date = ''2020-01-02'', val = 80\<rparr>,
      \<lparr>date = ''2020-01-03'', val = 60\<rparr>, \<lparr>date = ''2020-01-04'', val = 90\<rparr>,
      \<lparr>date = ''2020-01-05'', val = 110\<rparr>]"

section \<open>Properties\<close>

subsection \<open>Short series\<close>

text \<open>
  Claim C7. A value series with fewer than two points (empty, or a single entry) gets
  total_return = 0, max_drawdown = 0 and no recovery_days.
\<close>

theorem short_series_metrics:
  "length performance_data < 2 \<Longrightarrow>
     calculate_performance_metrics performance_data =
       Inr \<lparr>total_return = 0, max_drawdown = 0, recovery_days = None\<rparr>"
  by (simp add: calculate_performance_metrics_def)

theorem short_series_metrics_witness:
  "calculate_performance_metrics [] =
       Inr \<lparr>total_return = 0, max_drawdown = 0, recovery_days = None\<rparr>
   \<and> calculate_performance_metrics [\<lparr>date = ''2020-03-16'', val = 50\<rparr>] =
       Inr \<lparr>total_return = 0, max_drawdown = 0, recovery_days = None\<rparr>"
  using short_series_metrics [of "[]"]
    short_series_metrics [of "[\<lparr>date = ''2020-03-16'', val = 50\<rparr>]"]
  by simp

subsection \<open>A series that starts at zero\<close>

lemma metrics_zero_start:
  "2 \<le> length performance_data \<Longrightarrow> val (hd performance_data) = 0 \<Longrightarrow>
     calculate_performance_metrics performance_data = Inl ZeroDivisionError"
  by (simp add: calculate_performance_metrics_def py_truediv_def bind_err_def)

text \<open>
  Claim C1 says that a series whose first value is 0 gets an undefined (or zero)
  total_return and that the division never raises. The code divides by the first value
  without a test: on the two-point series below it raises \<^verbatim>\<open>ZeroDivisionError\<close>, and
  the whole simulation of a portfolio whose only asset has allocation 0 raises with it.
\<close>

theorem zero_start_raises:
  "calculate_performance_metrics
     [\<lparr>date = ''2020-03-02'', val = 0\<rparr>, \<lparr>date = ''2020-03-03'', val = 1\<rparr>]
     = Inl ZeroDivisionError
   \<and> simulate_portfolio_event \<lparr>pid = ''p1'', pname = ''demo'', investment_amount = None\<rparr>
       [(''SPY'', [\<lparr>dp_date = ''2020-03-02'', close = 300, allocation = 0\<rparr>,
                   \<lparr>dp_date = ''2020-03-03'', close = 310, allocation = 0\<rparr>])]
       (Some ''advice'')
     = Inl ZeroDivisionError"
  by code_simp

subsection \<open>The scenario valuator\<close>

text \<open>
  Claim C9. Without a pivot date (\<^verbatim>\<open>middle_date = None\<close>) the scenarios ``withdraw''
  and ``add'' produce the value series of ``no_change'' on the same inputs: the
  adjustment factor stays 1 at every date. (The pivot handed to ``no_change'' does not
  matter.)
\<close>

theorem no_pivot_is_hold:
  "calculate_scenario_performance event_data dates ''withdraw'' None pf =
     calculate_scenario_performance event_data dates ''no_change'' md pf
   \<and> calculate_scenario_performance event_data dates ''add'' None pf =
     calculate_scenario_performance event_data dates ''no_change'' md pf"
  by (simp add: calculate_scenario_performance_def scenario_value_def adjustment_factor_def
      pivot_reached_def)

theorem no_pivot_is_hold_witness:
  "calculate_scenario_performance
     [(''SPY'', [\<lparr>dp_date = ''2020-03-02'', close = 300, allocation = 50\<rparr>,
                 \<lparr>dp_date = ''2020-03-03'', close = 310, allocation = 50\<rparr>])]
     [''2020-03-02'', ''2020-03-03''] ''withdraw'' None None
   = [\<lparr>date = ''2020-03-02'', val = 150\<rparr>, \<lparr>date = ''2020-03-03'', val = 155\<rparr>]"
proof -
  have "calculate_scenario_performance
     [(''SPY'', [\<lparr>dp_date = ''2020-03-02'', close = 300, allocation = 50\<rparr>,
                 \<lparr>dp_date = ''2020-03-03'', close = 310, allocation = 50\<rparr>])]
     [''2020-03-02'', ''2020-03-03''] ''no_change'' None None
   = [\<lparr>date = ''2020-03-02'', val = 150\<rparr>, \<lparr>date = ''2020-03-03'', val = 155\<rparr>]"
    by code_simp
  with no_pivot_is_hold show ?thesis
    by simp
qed




subsection \<open>The orchestrator\<close>

lemma set_axis_dates:
  "set (axis_dates event_data) = (\<Union>(symbol, asset_data) \<in> set event_data. dp_date ` set asset_data)"
  by (auto simp: axis_dates_def)

lemma strict_axis_dates: "sorted_wrt (<) (axis_dates event_data)"
  by (simp add: axis_dates_def strict_sorted_iff)

lemma bind_err_Inr_iff:
  "bind_err r f = Inr y \<longleftrightarrow> (\<exists>x. r = Inr x \<and> f x = Inr y)"
  by (cases r) (simp_all add: bind_err_def)

lemma bind_err_Inl_iff:
  "bind_err r f = Inl e \<longleftrightarrow> r = Inl e \<or> (\<exists>x. r = Inr x \<and> f x = Inl e)"
  by (cases r) (simp_all add: bind_err_def)

lemma simulate_Inr_iff:
  "simulate_portfolio_event pf event_data reply = Inr r \<longleftrightarrow>
     axis_dates event_data \<noteq> [] \<and>
     (\<exists>mh mw ma.
        calculate_performance_metrics
          (calculate_scenario_performance event_data (axis_dates event_data) ''no_change'' None (Some pf))
          = Inr mh \<and>
        calculate_performance_metrics
          (calculate_scenario_performance event_data (axis_dates event_data) ''withdraw''
             (Some (axis_dates event_data ! (length (axis_dates event_data) div 2))) (Some pf))
          = Inr mw \<and>
        calculate_performance_metrics
          (calculate_scenario_performance event_data (axis_dates event_data) ''add''
             (Some (axis_dates event_data ! (length (axis_dates event_data) div 2))) (Some pf))
          = Inr ma \<and>
        r = \<lparr>middle_date = axis_dates event_data ! (length (axis_dates event_data) div 2),
             simulation_results =
               [make_result ''No Changes''
                  (calculate_scenario_performance event_data (axis_dates event_data) ''no_change'' None (Some pf)) mh,
                make_result ''20% Withdrawal''
                  (calculate_scenario_performance event_data (axis_dates event_data) ''withdraw''
                     (Some (axis_dates event_data ! (length (axis_dates event_data) div 2))) (Some pf)) mw,
                make_result ''20% Addition''
                  (calculate_scenario_performance event_data (axis_dates event_data) ''add''
                     (Some (axis_dates event_data ! (length (axis_dates event_data) div 2))) (Some pf)) ma],
             advice = generate_investment_advice
               [make_result ''No Changes''
                  (calculate_scenario_performance event_data (axis_dates event_data) ''no_change'' None (Some pf)) mh,
                make_result ''20% Withdrawal''
                  (calculate_scenario_performance event_data (axis_dates event_data) ''withdraw''
                     (Some (axis_dates event_data ! (length (axis_dates event_data) div 2))) (Some pf)) mw,
                make_result ''20% Addition''
                  (calculate_scenario_performance event_data (axis_dates event_data) ''add''
                     (Some (axis_dates event_data ! (length (axis_dates event_data) div 2))) (Some pf)) ma]
               reply\<rparr>)"
  by (auto simp: simulate_portfolio_event_def Let_def bind_err_Inr_iff)

lemma strptime_error: "strptime s = Inl e \<Longrightarrow> e = ValueError"
  by (auto simp: strptime_def split: option.splits prod.splits if_splits)

lemma recovery_loop_error:
  "recovery_loop performance_data initial_value lowest_date idxs = Inl e \<Longrightarrow> e = ValueError"
  by (induction idxs) (auto simp: bind_err_Inl_iff dest: strptime_error split: if_splits)

lemma drawdown_loop_error:
  "drawdown_loop points peak mdd = Inl e \<Longrightarrow> e = ZeroDivisionError"
proof (induction points arbitrary: peak mdd)
  case Nil
  then show ?case by simp
next
  case (Cons point rest)
  then show ?case
    by (auto simp: Let_def bind_err_Inl_iff py_truediv_def split: if_splits)
qed

lemma metrics_error:
  "calculate_performance_metrics performance_data = Inl e \<Longrightarrow>
     e = ZeroDivisionError \<or> e = ValueError"
  by (auto simp: calculate_performance_metrics_def Let_def bind_err_Inl_iff py_truediv_def
      dest: strptime_error recovery_loop_error drawdown_loop_error split: if_splits)

lemma simulate_no_data_iff:
  "simulate_portfolio_event pf event_data reply =
       Inl (HTTPException 400 ''Insufficient market data for simulation'')
     \<longleftrightarrow> axis_dates event_data = []"
  by (auto simp: simulate_portfolio_event_def Let_def bind_err_Inl_iff dest: metrics_error)

text \<open>
  Claim C5. The date axis of the simulation holds exactly the dates that occur in some
  asset's series, in strictly ascending order (sorted, no duplicates); and the
  simulation fails with the ``insufficient market data'' error (HTTP status 400) exactly
  when no series holds a date.
\<close>

theorem date_axis_union:
  "set (axis_dates event_data) = (\<Union>(symbol, asset_data) \<in> set event_data. dp_date ` set asset_data)
   \<and> sorted_wrt (<) (axis_dates event_data)
   \<and> ((\<Union>(symbol, asset_data) \<in> set event_data. dp_date ` set asset_data) = {} \<longleftrightarrow>
        simulate_portfolio_event pf event_data reply =
          Inl (HTTPException 400 ''Insufficient market data for simulation''))"
proof -
  have "axis_dates event_data = [] \<longleftrightarrow>
      (\<Union>(symbol, asset_data) \<in> set event_data. dp_date ` set asset_data) = {}"
    using set_axis_dates [of event_data] by (metis set_empty)
  then show ?thesis
    by (simp add: set_axis_dates strict_axis_dates simulate_no_data_iff)
qed




lemma advice_of_three:
  "generate_investment_advice
     [make_result ''No Changes'' p1 m1, make_result ''20% Withdrawal'' p2 m2,
      make_result ''20% Addition'' p3 m3] reply =
   (case reply of
      None \<Rightarrow> fallback_advice
    | Some txt \<Rightarrow>
        \<lparr>best_scenario =
           (if total_return m1 < total_return m2
            then (if total_return m2 < total_return m3 then ''20% Addition'' else ''20% Withdrawal'')
            else (if total_return m1 < total_return m3 then ''20% Addition'' else ''No Changes'')),
         advice_text = txt\<rparr>)"
  by (simp add: generate_investment_advice_def make_result_def split: option.splits)

text \<open>
  Claim C8, amended. Whenever the simulation returns, its results are the three
  scenarios in the order No Changes, 20% Withdrawal, 20% Addition, each with the metrics
  of its own value series; when the advice request succeeds, the best scenario is one of
  the three with the greatest total_return; when the request fails, the best scenario
  is the fixed answer ``No Changes''.
\<close>

theorem three_scenarios_ranked:
  assumes run: "simulate_portfolio_event pf event_data reply = Inr r"
  shows "map scenario (simulation_results r) = [''No Changes'', ''20% Withdrawal'', ''20% Addition'']
    \<and> (\<forall>x \<in> set (simulation_results r).
          calculate_performance_metrics (performance x) = Inr (metrics.truncate x))
    \<and> (reply \<noteq> None \<longrightarrow>
         (\<exists>x \<in> set (simulation_results r).
            scenario x = best_scenario (advice r)
            \<and> (\<forall>y \<in> set (simulation_results r). total_return y \<le> total_return x)))
    \<and> (reply = None \<longrightarrow> best_scenario (advice r) = ''No Changes'')"
proof -
  from run obtain mh mw ma ph pw pa where
    mh: "calculate_performance_metrics ph = Inr mh" and
    mw: "calculate_performance_metrics pw = Inr mw" and
    ma: "calculate_performance_metrics pa = Inr ma" and
    res: "simulation_results r =
      [make_result ''No Changes'' ph mh, make_result ''20% Withdrawal'' pw mw,
       make_result ''20% Addition'' pa ma]" and
    adv: "advice r = generate_investment_advice
      [make_result ''No Changes'' ph mh, make_result ''20% Withdrawal'' pw mw,
       make_result ''20% Addition'' pa ma] reply"
    by (auto simp: simulate_Inr_iff)
  have names: "map scenario (simulation_results r) =
      [''No Changes'', ''20% Withdrawal'', ''20% Addition'']"
    by (simp add: res make_result_def)
  have evaluated: "\<forall>x \<in> set (simulation_results r).
      calculate_performance_metrics (performance x) = Inr (metrics.truncate x)"
    by (simp add: res make_result_def metrics.truncate_def mh mw ma)
  have fallback: "reply = None \<longrightarrow> best_scenario (advice r) = ''No Changes''"
    by (simp add: adv advice_of_three fallback_advice_def)
  have best: "reply \<noteq> None \<longrightarrow>
         (\<exists>x \<in> set (simulation_results r).
            scenario x = best_scenario (advice r)
            \<and> (\<forall>y \<in> set (simulation_results r). total_return y \<le> total_return x))"
  proof
    assume "reply \<noteq> None"
    then have b: "best_scenario (advice r) =
        (if total_return mh < total_return mw
         then (if total_return mw < total_return ma then ''20% Addition'' else ''20% Withdrawal'')
         else (if total_return mh < total_return ma then ''20% Addition'' else ''No Changes''))"
      by (auto simp: adv advice_of_three)
    show "\<exists>x \<in> set (simulation_results r).
            scenario x = best_scenario (advice r)
            \<and> (\<forall>y \<in> set (simulation_results r). total_return y \<le> total_return x)"
      unfolding b res by (simp add: make_result_def)
  qed
  from names evaluated best fallback show ?thesis
    by blast
qed



lemma two_day_run:
  "simulate_portfolio_event demo_portfolio two_day_data (Some ''keep calm'')
   = Inr \<lparr>middle_date = ''2020-03-03'',
          simulation_results =
            [\<lparr>total_return = 10, max_drawdown = 0, recovery_days = Some 1,
              scenario = ''No Changes'',
              performance = [\<lparr>date = ''2020-03-02'', val = 50\<rparr>, \<lparr>date = ''2020-03-03'', val = 55\<rparr>]\<rparr>,
             \<lparr>total_return = - 12, max_drawdown = 12, recovery_days = None,
              scenario = ''20% Withdrawal'',
              performance = [\<lparr>date = ''2020-03-02'', val = 50\<rparr>, \<lparr>date = ''2020-03-03'', val = 44\<rparr>]\<rparr>,
             \<lparr>total_return = 32, max_drawdown = 0, recovery_days = Some 1,
              scenario = ''20% Addition'',
              performance = [\<lparr>date = ''2020-03-02'', val = 50\<rparr>, \<lparr>date = ''2020-03-03'', val = 66\<rparr>]\<rparr>],
          advice = \<lparr>best_scenario = ''20% Addition'', advice_text = ''keep calm''\<rparr>\<rparr>"
  by code_simp

theorem date_axis_union_witness:
  "simulate_portfolio_event demo_portfolio [(''SPY'', []), (''QQQ'', [])] None =
     Inl (HTTPException 400 ''Insufficient market data for simulation'')
   \<and> set (axis_dates two_day_data) = {''2020-03-02'', ''2020-03-03''}"
  using date_axis_union [of "[(''SPY'', []), (''QQQ'', [])]" demo_portfolio None]
    date_axis_union [of two_day_data demo_portfolio None]
  by (simp add: two_day_data_def)


theorem three_scenarios_ranked_witness:
  "(case simulate_portfolio_event demo_portfolio two_day_data (Some ''keep calm'') of
      Inl e \<Rightarrow> False
    | Inr r \<Rightarrow>
        map scenario (simulation_results r) = [''No Changes'', ''20% Withdrawal'', ''20% Addition'']
        \<and> best_scenario (advice r) = ''20% Addition''
        \<and> map total_return (simulation_results r) = [10, - 12, 32])"
  using three_scenarios_ranked [OF two_day_run]
  by (simp add: two_day_run)

text \<open>
  The claim as stated fails: when the advice request raises, the answer of the
  \<^verbatim>\<open>except\<close> branch names ``No Changes'' (total_return 10) although ``20% Addition''
  has total_return 32.
\<close>

theorem fallback_not_best:
  "simulate_portfolio_event demo_portfolio two_day_data None
   = Inr \<lparr>middle_date = ''2020-03-03'',
          simulation_results =
            [\<lparr>total_return = 10, max_drawdown = 0, recovery_days = Some 1,
              scenario = ''No Changes'',
              performance = [\<lparr>date = ''2020-03-02'', val = 50\<rparr>, \<lparr>date = ''2020-03-03'', val = 55\<rparr>]\<rparr>,
             \<lparr>total_return = - 12, max_drawdown = 12, recovery_days = None,
              scenario = ''20% Withdrawal'',
              performance = [\<lparr>date = ''2020-03-02'', val = 50\<rparr>, \<lparr>date = ''2020-03-03'', val = 44\<rparr>]\<rparr>,
             \<lparr>total_return = 32, max_drawdown = 0, recovery_days = Some 1,
              scenario = ''20% Addition'',
              performance = [\<lparr>date = ''2020-03-02'', val = 50\<rparr>, \<lparr>date = ''2020-03-03'', val = 66\<rparr>]\<rparr>],
          advice = fallback_advice\<rparr>
   \<and> best_scenario fallback_advice = ''No Changes''"
  by code_simp

subsection \<open>The metrics calculator: drawdown\<close>

lemma drawdown_loop_ge:
  "drawdown_loop points peak mdd = Inr r \<Longrightarrow> mdd \<le> r"
proof (induction points arbitrary: peak mdd)
  case Nil
  then show ?case by simp
next
  case (Cons point rest)
  from Cons.prems obtain q where
    "drawdown_loop rest (if peak < val point then val point else peak) (max mdd (q * 100)) = Inr r"
    by (auto simp: Let_def bind_err_Inr_iff)
  from Cons.IH [OF this] show ?case by simp
qed

lemma max_zero_iff:
  fixes a b :: rat
  shows "0 \<le> a \<Longrightarrow> 0 \<le> b \<Longrightarrow> max a b = 0 \<longleftrightarrow> a = 0 \<and> b = 0"
  by (auto simp: max_def)

lemma drawdown_step:
  fixes peak v :: rat
  assumes "0 < peak" and "v \<le> peak"
  shows "0 \<le> (peak - v) / peak * 100" and "(peak - v) / peak * 100 = 0 \<longleftrightarrow> v = peak"
  using assms by (auto simp: divide_nonneg_pos)

lemma drawdown_loop_zero_iff:
  assumes "0 < peak" and "0 \<le> mdd" and "drawdown_loop points peak mdd = Inr r"
  shows "r = 0 \<longleftrightarrow> mdd = 0 \<and> (\<forall>p \<in> set points. peak \<le> val p) \<and> sorted (map val points)"
  using assms
proof (induction points arbitrary: peak mdd)
  case Nil
  then show ?case by auto
next
  case (Cons point rest)
  define peak' where "peak' = (if peak < val point then val point else peak)"
  define d where "d = (peak' - val point) / peak' * 100"
  from Cons.prems have pos: "0 < peak'" and le: "val point \<le> peak'"
    by (auto simp: peak'_def)
  from drawdown_step [OF pos le] have d0: "0 \<le> d" and dz: "d = 0 \<longleftrightarrow> val point = peak'"
    by (simp_all add: d_def)
  from Cons.prems(3) pos have run: "drawdown_loop rest peak' (max mdd d) = Inr r"
    by (simp add: Let_def bind_err_def py_truediv_def peak'_def d_def split: if_splits)
  from Cons.prems(2) d0 have m0: "0 \<le> max mdd d"
    by (simp add: le_max_iff_disj)
  have mz: "max mdd d = 0 \<longleftrightarrow> mdd = 0 \<and> peak \<le> val point"
    unfolding max_zero_iff [OF Cons.prems(2) d0] dz
    by (auto simp: peak'_def)
  from Cons.IH [OF pos m0 run] have
    "r = 0 \<longleftrightarrow> (mdd = 0 \<and> peak \<le> val point) \<and> (\<forall>p \<in> set rest. peak' \<le> val p) \<and> sorted (map val rest)"
    unfolding mz .
  moreover have "peak \<le> val p" if "peak \<le> val point" and "\<forall>p \<in> set rest. peak' \<le> val p" and "p \<in> set rest" for p
  proof -
    from that have "peak' \<le> val p" by simp
    moreover have "peak \<le> peak'" by (simp add: peak'_def)
    ultimately show ?thesis by (rule order_trans [rotated])
  qed
  moreover have "peak' = val point" if "peak \<le> val point"
    using that by (simp add: peak'_def)
  ultimately show ?case
    by (simp add: ball_conj_distrib) blast
qed

lemma metrics_max_drawdown:
  assumes "2 \<le> length performance_data"
    and "calculate_performance_metrics performance_data = Inr m"
  shows "drawdown_loop performance_data (val (hd performance_data)) 0 = Inr (max_drawdown m)"
  using assms
  by (auto simp: calculate_performance_metrics_def Let_def bind_err_Inr_iff)

text \<open>
  Claim C4, amended. Whenever \<^verbatim>\<open>calculate_performance_metrics\<close> returns, max_drawdown
  is at least 0; and for a series of length at least 2 whose first value is positive,
  max_drawdown is 0 if and only if the series is non-decreasing.
\<close>

theorem max_drawdown_sign:
  assumes "calculate_performance_metrics performance_data = Inr m"
  shows "0 \<le> max_drawdown m
    \<and> (2 \<le> length performance_data \<and> 0 < val (hd performance_data) \<longrightarrow>
         (max_drawdown m = 0 \<longleftrightarrow> non_decreasing performance_data))"
proof (cases "2 \<le> length performance_data")
  case False
  with assms show ?thesis
    by (auto simp: calculate_performance_metrics_def)
next
  case True
  note loop = metrics_max_drawdown [OF True assms]
  from drawdown_loop_ge [OF loop] have nonneg: "0 \<le> max_drawdown m" .
  have "max_drawdown m = 0 \<longleftrightarrow> non_decreasing performance_data"
    if pos: "0 < val (hd performance_data)"
  proof -
    from True obtain p rest where pd: "performance_data = p # rest"
      by (cases performance_data) auto
    from drawdown_loop_zero_iff [OF pos _ loop]
    have "max_drawdown m = 0 \<longleftrightarrow>
        (\<forall>q \<in> set performance_data. val (hd performance_data) \<le> val q)
        \<and> sorted (map val performance_data)"
      by simp
    then show ?thesis
      by (auto simp: non_decreasing_def pd)
  qed
  with nonneg show ?thesis by simp
qed

lemma five_day_metrics:
  "calculate_performance_metrics five_day_series =
     Inr \<lparr>total_return = 10, max_drawdown = 40, recovery_days = Some 2\<rparr>"
  by code_simp

theorem max_drawdown_sign_witness:
  "calculate_performance_metrics five_day_series =
     Inr \<lparr>total_return = 10, max_drawdown = 40, recovery_days = Some 2\<rparr>
   \<and> 2 \<le> length five_day_series \<and> 0 < val (hd five_day_series)
   \<and> \<not> non_decreasing five_day_series"
  using max_drawdown_sign [OF five_day_metrics] five_day_metrics
  by (simp add: five_day_series_def)


text \<open>
  The claim as stated (values of either sign) fails: below a negative peak the quotient
  \<^verbatim>\<open>(peak_value - value) / peak_value\<close> is negative, so the decreasing series -1, -2
  gets max_drawdown 0.
\<close>

theorem negative_series_no_drawdown:
  "calculate_performance_metrics
     [\<lparr>date = ''2020-03-02'', val = - 1\<rparr>, \<lparr>date = ''2020-03-03'', val = - 2\<rparr>]
     = Inr \<lparr>total_return = 100, max_drawdown = 0, recovery_days = None\<rparr>
   \<and> \<not> non_decreasing [\<lparr>date = ''2020-03-02'', val = - 1\<rparr>, \<lparr>date = ''2020-03-03'', val = - 2\<rparr>]"
  by code_simp

subsection \<open>The metrics calculator: recovery\<close>

lemma min_loop_first_min:
  assumes "sorted_wrt (<) (best # idxs)"
  shows "min_loop key idxs best \<in> set (best # idxs)
    \<and> (\<forall>j \<in> set (best # idxs).
          key (min_loop key idxs best) \<le> key j
          \<and> (j < min_loop key idxs best \<longrightarrow> key (min_loop key idxs best) < key j))"
  using assms
proof (induction idxs arbitrary: best)
  case Nil
  then show ?case by simp
next
  case (Cons i rest)
  define best' where "best' = (if key i < key best then i else best)"
  define r where "r = min_loop key rest best'"
  from Cons.prems have lt: "best < i" and rest_gt: "\<forall>j \<in> set rest. i < j"
    and srt: "sorted_wrt (<) rest"
    by auto
  from lt rest_gt srt have "sorted_wrt (<) (best' # rest)"
    by (auto simp: best'_def)
  from Cons.IH [OF this] have mem: "r \<in> set (best' # rest)"
    and least: "\<And>j. j \<in> set (best' # rest) \<Longrightarrow> key r \<le> key j"
    and first: "\<And>j. j \<in> set (best' # rest) \<Longrightarrow> j < r \<Longrightarrow> key r < key j"
    by (auto simp: r_def)
  have eq: "min_loop key (i # rest) best = r"
    by (simp add: r_def best'_def)
  have mem': "r \<in> set (best # i # rest)"
    using mem by (auto simp: best'_def split: if_splits)
  have props: "key r \<le> key j \<and> (j < r \<longrightarrow> key r < key j)"
    if j: "j \<in> set (best # i # rest)" for j
  proof (cases "j \<in> set (best' # rest)")
    case True
    with least first show ?thesis by blast
  next
    case False
    show ?thesis
    proof (cases "key i < key best")
      case True
      with False j have jb: "j = best" and b': "best' = i"
        by (auto simp: best'_def)
      from least [of i] b' have "key r \<le> key i" by simp
      with True jb show ?thesis by simp
    next
      case notless: False
      with False j have ji: "j = i" and b': "best' = best"
        by (auto simp: best'_def)
      from least [of best] b' have rb: "key r \<le> key best" by simp
      have "key r < key i" if "i < r"
      proof -
        from lt that have "best < r" by simp
        from first [of best] b' this have "key r < key best" by simp
        with notless show ?thesis by simp
      qed
      with rb notless ji show ?thesis by auto
    qed
  qed
  from mem' props show ?case
    unfolding eq by blast
qed

lemma lowest_point_idx_first_min:
  assumes "performance_data \<noteq> []"
  shows "lowest_point_idx performance_data < length performance_data"
    and "\<And>j. j < length performance_data \<Longrightarrow>
          val (performance_data ! lowest_point_idx performance_data) \<le> val (performance_data ! j)"
    and "\<And>j. j < lowest_point_idx performance_data \<Longrightarrow>
          val (performance_data ! lowest_point_idx performance_data) < val (performance_data ! j)"
proof -
  let ?n = "length performance_data"
  let ?key = "\<lambda>i. val (performance_data ! i)"
  from assms have n: "0 < ?n" by simp
  have srt: "sorted_wrt (<) (0 # [1 ..< ?n])"
    by auto
  have idxs: "set (0 # [1 ..< ?n]) = {0 ..< ?n}"
    using n by auto
  note fm = min_loop_first_min [OF srt, of ?key, folded lowest_point_idx_def, unfolded idxs]
  from fm show lt: "lowest_point_idx performance_data < ?n"
    by simp
  from fm show "val (performance_data ! lowest_point_idx performance_data) \<le> val (performance_data ! j)"
    if "j < ?n" for j
    using that by simp
  from fm lt show "val (performance_data ! lowest_point_idx performance_data) < val (performance_data ! j)"
    if "j < lowest_point_idx performance_data" for j
    using that by simp
qed

lemma spec_trough_index_first_min:
  assumes "series \<noteq> []"
  shows "spec_trough_index series < length series"
    and "val (series ! spec_trough_index series) = Min (set (map val series))"
    and "\<And>j. j < spec_trough_index series \<Longrightarrow> val (series ! j) \<noteq> Min (set (map val series))"
proof -
  let ?m = "Min (set (map val series))"
  let ?P = "\<lambda>p. val p \<noteq> ?m"
  from assms have "?m \<in> set (map val series)"
    by (intro Min_in) simp_all
  then have "\<not> (\<forall>p \<in> set series. ?P p)"
    by auto
  then have "takeWhile ?P series \<noteq> series"
    by simp
  then have "length (takeWhile ?P series) \<noteq> length series"
    by (metis takeWhile_eq_take take_all_iff le_refl)
  with length_takeWhile_le [of ?P series]
  show lt: "spec_trough_index series < length series"
    by (simp add: spec_trough_index_def)
  from nth_length_takeWhile [of ?P series] lt
  show "val (series ! spec_trough_index series) = ?m"
    by (simp add: spec_trough_index_def)
  show "val (series ! j) \<noteq> ?m" if "j < spec_trough_index series" for j
  proof -
    from that have j: "j < length (takeWhile ?P series)"
      by (simp add: spec_trough_index_def)
    then have "takeWhile ?P series ! j \<in> set (takeWhile ?P series)"
      by simp
    then have "?P (takeWhile ?P series ! j)"
      by (rule set_takeWhileD [THEN conjunct2])
    with j show ?thesis
      by (simp add: takeWhile_nth)
  qed
qed

lemma lowest_point_idx_spec:
  assumes "performance_data \<noteq> []"
  shows "lowest_point_idx performance_data = spec_trough_index performance_data"
proof -
  let ?r = "lowest_point_idx performance_data"
  let ?t = "spec_trough_index performance_data"
  let ?m = "Min (set (map val performance_data))"
  note code = lowest_point_idx_first_min [OF assms]
  note spec = spec_trough_index_first_min [OF assms]
  have "?m = val (performance_data ! ?r)"
  proof (rule Min_eqI)
    show "finite (set (map val performance_data))" by simp
    show "val (performance_data ! ?r) \<le> y" if "y \<in> set (map val performance_data)" for y
    proof -
      from that obtain j where "j < length performance_data" and "y = val (performance_data ! j)"
        by (auto simp: in_set_conv_nth)
      with code(2) show ?thesis by simp
    qed
    from code(1) show "val (performance_data ! ?r) \<in> set (map val performance_data)"
      by simp
  qed
  then have rm: "val (performance_data ! ?r) = ?m" by simp
  have "\<not> ?r < ?t"
    using spec(3) [of ?r] rm by auto
  moreover have "\<not> ?t < ?r"
    using code(3) [of ?t] spec(2) rm by auto
  ultimately show ?thesis by simp
qed

lemma recovery_loop_find:
  "recovery_loop performance_data initial_value lowest_date idxs =
     (case find (\<lambda>p. initial_value \<le> val p) (map ((!) performance_data) idxs) of
        None \<Rightarrow> Inr None
      | Some r \<Rightarrow> bind_err (strptime (date r))
                   (\<lambda>recovery_date. Inr (Some (timedelta_days recovery_date lowest_date))))"
  by (induction idxs) simp_all

lemma map_nth_from: "map ((!) xs) [k ..< length xs] = drop k xs"
proof -
  have "drop k (map ((!) xs) [0 ..< length xs]) = map ((!) xs) [k ..< length xs]"
    by (simp add: drop_map)
  then show ?thesis
    by (simp add: map_nth)
qed

lemma strptime_calendar_days: "strptime s = Inr t \<Longrightarrow> calendar_days s = toordinal t"
  by (simp add: calendar_days_def)

lemma metrics_recovery_days:
  assumes len: "2 \<le> length performance_data"
    and run: "calculate_performance_metrics performance_data = Inr m"
  shows "recovery_days m = spec_recovery_days performance_data"
proof -
  let ?t = "spec_trough_index performance_data"
  let ?n = "length performance_data"
  from len have ne: "performance_data \<noteq> []" by auto
  note idx = lowest_point_idx_spec [OF ne]
  from len run have scan:
    "(if ?t < ?n - 1
      then bind_err (strptime (date (performance_data ! ?t)))
             (\<lambda>lowest_date. recovery_loop performance_data (val (hd performance_data)) lowest_date
                [?t + 1 ..< ?n])
      else Inr None) = Inr (recovery_days m)"
    by (auto simp: calculate_performance_metrics_def Let_def bind_err_Inr_iff idx)
  from spec_trough_index_first_min(1) [OF ne] have tn: "?t < ?n" .
  show ?thesis
  proof (cases "?t < ?n - 1")
    case False
    with tn have "?t = ?n - 1" by simp
    with scan False show ?thesis
      by (simp add: spec_recovery_days_def)
  next
    case True
    with scan obtain lowest_date where
      low: "strptime (date (performance_data ! ?t)) = Inr lowest_date" and
      loop: "recovery_loop performance_data (val (hd performance_data)) lowest_date
                [Suc ?t ..< ?n] = Inr (recovery_days m)"
      by (auto simp: bind_err_Inr_iff)
    from True have not_last: "?t \<noteq> ?n - 1" by simp
    show ?thesis
    proof (cases "find (\<lambda>p. val (hd performance_data) \<le> val p) (drop (Suc ?t) performance_data)")
      case None
      with loop not_last show ?thesis
        by (simp add: recovery_loop_find map_nth_from spec_recovery_days_def)
    next
      case (Some r)
      with loop obtain recovery_date where
        rec: "strptime (date r) = Inr recovery_date" and
        days: "recovery_days m = Some (timedelta_days recovery_date lowest_date)"
        by (auto simp: recovery_loop_find map_nth_from bind_err_Inr_iff)
      from Some not_last days show ?thesis
        by (simp add: spec_recovery_days_def timedelta_days_def
            strptime_calendar_days [OF rec] strptime_calendar_days [OF low])
    qed
  qed
qed

lemma spec_recovery_days_later:
  assumes "spec_recovery_days series = Some d"
  shows "\<exists>i. spec_trough_index series < i \<and> i < length series
    \<and> d = calendar_days (date (series ! i)) - calendar_days (date (series ! spec_trough_index series))"
proof -
  let ?t = "spec_trough_index series"
  from assms obtain r where
    f: "find (\<lambda>p. val (hd series) \<le> val p) (drop (Suc ?t) series) = Some r" and
    d: "d = calendar_days (date r) - calendar_days (date (series ! ?t))"
    by (auto simp: spec_recovery_days_def Let_def split: if_splits option.splits)
  from f obtain k where k: "k < length (drop (Suc ?t) series)" and r: "r = drop (Suc ?t) series ! k"
    by (auto simp: find_Some_iff)
  from k have "Suc ?t + k < length series" by simp
  moreover from k r have "r = series ! (Suc ?t + k)" by simp
  ultimately show ?thesis
    using d by (intro exI [of _ "Suc ?t + k"]) simp
qed

text \<open>
  Claim C3. For a series of length at least 2 on which the metrics are returned, the
  trough index the code computes is the index of the global minimum (first occurrence
  on ties), and recovery_days is what the specification describes: absent when the
  trough is the last entry; otherwise the calendar-day difference between the first later
  entry whose value is at least the first value and the trough; absent when there is no
  such entry.
\<close>

theorem recovery_days_refines_spec:
  assumes "2 \<le> length performance_data"
    and "calculate_performance_metrics performance_data = Inr m"
  shows "lowest_point_idx performance_data = spec_trough_index performance_data
    \<and> recovery_days m = spec_recovery_days performance_data"
proof -
  from assms(1) have "performance_data \<noteq> []" by auto
  then show ?thesis
    using assms by (simp add: lowest_point_idx_spec metrics_recovery_days)
qed

lemma five_day_length: "2 \<le> length five_day_series"
  by (simp add: five_day_series_def)

theorem recovery_days_refines_spec_witness:
  "lowest_point_idx five_day_series = spec_trough_index five_day_series
   \<and> spec_recovery_days five_day_series = Some 2"
  using recovery_days_refines_spec [OF five_day_length five_day_metrics]
  by simp

text \<open>
  Claim C10. For a series of length at least 2 whose dates are valid calendar dates in
  strictly increasing order, a recovery_days that is present is at least 1.
\<close>

theorem recovery_days_at_least_one:
  assumes "2 \<le> length performance_data"
    and "chronological performance_data"
    and "calculate_performance_metrics performance_data = Inr m"
    and "recovery_days m = Some d"
  shows "1 \<le> d"
proof -
  from assms have "spec_recovery_days performance_data = Some d"
    by (simp add: metrics_recovery_days)
  from spec_recovery_days_later [OF this] obtain i where
    i: "spec_trough_index performance_data < i" "i < length performance_data" and
    d: "d = calendar_days (date (performance_data ! i))
          - calendar_days (date (performance_data ! spec_trough_index performance_data))"
    by blast
  from assms(2) have "sorted_wrt (<) (map (\<lambda>p. calendar_days (date p)) performance_data)"
    by (simp add: chronological_def)
  from sorted_wrt_nth_less [OF this i(1)] i
  have "calendar_days (date (performance_data ! spec_trough_index performance_data))
      < calendar_days (date (performance_data ! i))"
    by simp
  with d show ?thesis by simp
qed

lemma five_day_chronological: "chronological five_day_series"
  by code_simp

theorem recovery_days_at_least_one_witness:
  "chronological five_day_series
   \<and> calculate_performance_metrics five_day_series =
       Inr \<lparr>total_return = 10, max_drawdown = 40, recovery_days = Some 2\<rparr>
   \<and> (1::int) \<le> 2"
  using recovery_days_at_least_one [OF five_day_length five_day_chronological five_day_metrics]
    five_day_chronological five_day_metrics
  by simp

subsection \<open>The metrics calculator: when it returns\<close>

text \<open>
  The theorems above speak of the runs that return. The metrics are returned for every
  series with a positive first value whose dates parse.
\<close>

lemma drawdown_loop_returns:
  "0 < peak \<Longrightarrow> \<exists>r. drawdown_loop points peak mdd = Inr r"
proof (induction points arbitrary: peak mdd)
  case Nil
  then show ?case by simp
next
  case (Cons point rest)
  let ?peak = "if peak < val point then val point else peak"
  from Cons.prems have pos: "0 < ?peak" by simp
  from Cons.IH [OF pos] pos show ?case
    by (simp add: Let_def bind_err_def py_truediv_def)
qed

lemma recovery_loop_returns:
  "\<forall>i \<in> set idxs. parses (date (performance_data ! i)) \<Longrightarrow>
     \<exists>r. recovery_loop performance_data initial_value lowest_date idxs = Inr r"
  by (induction idxs) (auto simp: parses_def bind_err_def split: sum.splits)

lemma metrics_returns:
  assumes pos: "0 < val (hd performance_data)"
    and dates: "list_all (\<lambda>p. parses (date p)) performance_data"
  shows "\<exists>m. calculate_performance_metrics performance_data = Inr m"
proof (cases "length performance_data < 2")
  case True
  then show ?thesis by (simp add: calculate_performance_metrics_def)
next
  case False
  then have ne: "performance_data \<noteq> []" by auto
  from drawdown_loop_returns [OF pos] obtain dd where
    dd: "drawdown_loop performance_data (val (hd performance_data)) 0 = Inr dd"
    by blast
  from dates have all: "parses (date (performance_data ! i))" if "i < length performance_data" for i
    using that by (simp add: list_all_length)
  from all [OF lowest_point_idx_first_min(1) [OF ne]] obtain low where
    low: "strptime (date (performance_data ! lowest_point_idx performance_data)) = Inr low"
    by (auto simp: parses_def split: sum.splits)
  from all have "\<forall>i \<in> set [lowest_point_idx performance_data + 1 ..< length performance_data].
      parses (date (performance_data ! i))"
    by simp
  from recovery_loop_returns [OF this] obtain rd where
    rd: "recovery_loop performance_data (val (hd performance_data)) low
           [lowest_point_idx performance_data + 1 ..< length performance_data] = Inr rd"
    by blast
  from pos False dd low rd show ?thesis
    by (simp add: calculate_performance_metrics_def Let_def bind_err_def py_truediv_def)
qed

end
